theory Spec2Isabelle
  imports Complex_Main
begin

section \<open>Numbers and failures\<close>

text \<open>
  The calculators of \<^verbatim>\<open>rf_antenna_gui_v3.py\<close> work on Python floats. The model
  idealises a float as a real number: a theorem below is about the value of
  the formula the code evaluates, not about the rounding of that value to an
  IEEE-754 double. What Python raises is a value of type \<open>error\<close>; a
  calculation is a value of \<open>error + 'a\<close>, with \<open>Inl\<close> the exception that
  reaches the handler's \<^verbatim>\<open>except Exception\<close> clause.

  The range of a double is written out where it decides whether the Friis
  cascade raises: the power \<^verbatim>\<open>10**x\<close> raises OverflowError on a result that
  rounds to infinity and gives 0.0 on one that rounds to zero (\<open>pow10\<close>), and
  a product that rounds to zero is 0.0 (\<open>fmul\<close>), on which the next division
  or logarithm raises. A sum, product or quotient beyond the largest double
  raises nothing in Python, which carries on with \<^verbatim>\<open>inf\<close>; the model keeps
  its real value, and the theorems on the cascade bound their inputs so that
  no such value arises.
\<close>

datatype error = ValueError string | ZeroDivisionError | KeyError | OverflowError

definition sbind :: "error + 'a \<Rightarrow> ('a \<Rightarrow> error + 'b) \<Rightarrow> error + 'b" where
  \<comment> \<open>sequencing: an exception of the first step skips the rest\<close>
  "sbind m k = (case m of Inl e \<Rightarrow> Inl e | Inr v \<Rightarrow> k v)"

definition log10 :: "real \<Rightarrow> error + real" where
  \<comment> \<open>\<^verbatim>\<open>math.log10\<close>: a non-positive argument raises ValueError\<close>
  "log10 x = (if 0 < x then Inr (log 10 x) else Inl (ValueError ''math domain error''))"

definition sqrt_py :: "real \<Rightarrow> error + real" where
  \<comment> \<open>\<^verbatim>\<open>math.sqrt\<close>: a negative argument raises ValueError\<close>
  "sqrt_py x = (if 0 \<le> x then Inr (sqrt x) else Inl (ValueError ''math domain error''))"

definition truediv :: "real \<Rightarrow> real \<Rightarrow> error + real" where
  \<comment> \<open>float division \<^verbatim>\<open>a / b\<close>\<close>
  "truediv a b = (if b = 0 then Inl ZeroDivisionError else Inr (a / b))"

definition float_overflow :: real where
  \<comment> \<open>the least magnitude that rounds to infinity, half an ulp above the largest double\<close>
  "float_overflow = 2 ^ 1024 - 2 ^ 970"

definition float_underflow :: real where
  \<comment> \<open>the greatest magnitude that rounds to 0.0, half the least subnormal double\<close>
  "float_underflow = 1 / 2 ^ 1075"

definition pow10 :: "real \<Rightarrow> error + real" where
  \<comment> \<open>\<^verbatim>\<open>10**y\<close> for a float \<open>y\<close>\<close>
  "pow10 y =
     (if float_overflow \<le> 10 powr y then Inl OverflowError
      else if 10 powr y \<le> float_underflow then Inr 0
      else Inr (10 powr y))"

definition fmul :: "real \<Rightarrow> real \<Rightarrow> real" where
  \<comment> \<open>float product \<^verbatim>\<open>a * b\<close>, 0.0 when it underflows\<close>
  "fmul a b = (if \<bar>a * b\<bar> \<le> float_underflow then 0 else a * b)"

fun collect :: "('a \<Rightarrow> error + 'b) \<Rightarrow> 'a list \<Rightarrow> error + 'b list" where
  \<comment> \<open>a list built element by element, stopping at the first exception\<close>
  "collect f [] = Inr []"
| "collect f (x # xs) = sbind (f x) (\<lambda>y. sbind (collect f xs) (\<lambda>ys. Inr (y # ys)))"

fun for_each :: "(nat \<Rightarrow> 's \<Rightarrow> error + 's) \<Rightarrow> nat list \<Rightarrow> 's \<Rightarrow> error + 's" where
  \<comment> \<open>a \<^verbatim>\<open>for\<close> loop over indices whose body may raise\<close>
  "for_each body [] s = Inr s"
| "for_each body (i # rest) s = sbind (body i s) (for_each body rest)"

section \<open>RF math\<close>

definition fspl :: "real \<Rightarrow> real \<Rightarrow> error + real" where
  "fspl distanceKm freqMhz =
     (if distanceKm \<le> 0 \<or> freqMhz \<le> 0
      then Inl (ValueError ''Distance and frequency must be positive.'')
      else sbind (log10 distanceKm) (\<lambda>ld.
           sbind (log10 freqMhz) (\<lambda>lf.
           Inr (20 * ld + 20 * lf + 32.44))))"

definition wavelengthMeters :: "real \<Rightarrow> error + real" where
  "wavelengthMeters freqHz =
     (let c = 299792458 in
      if freqHz \<le> 0 then Inl (ValueError ''Frequency must be positive.'')
      else truediv c freqHz)"

section \<open>Antenna helpers\<close>

definition yagiLengths :: "real \<Rightarrow> int \<Rightarrow> real \<Rightarrow> real \<times> real \<times> real list" where
  \<comment> \<open>(reflector, driven, directors); the loop over \<^verbatim>\<open>range(ndir)\<close> is a map over the indices\<close>
  "yagiLengths lam elements vf =
     (let reflector = lam * 0.53 * vf;
          driven = lam * 0.50 * vf;
          directors =
            (if elements \<ge> 3
             then (let ndir = elements - 2 in
                   map (\<lambda>i. let frac = 0.48 - 0.01 * real i;
                                frac = (if frac < 0.44 then 0.44 else frac)
                            in lam * frac * vf)
                       [0..<nat ndir])
             else [])
      in (reflector, driven, directors))"

definition yagiSpacing :: "real \<Rightarrow> int \<Rightarrow> error + (real list \<times> real)" where
  "yagiSpacing lam elements =
     (if elements < 3 then Inl (ValueError ''Yagi requires at least 3 elements.'')
      else (let spacings = [0.20 * lam, 0.15 * lam] @ replicate (nat (elements - 3)) (0.15 * lam)
            in Inr (spacings, sum_list spacings)))"

record yagi_out =
  reflector_len :: real
  driven_len :: real
  director_lens :: "real list"
  spacing_list :: "real list"
  boom_len :: real

definition calculate_antenna_yagi :: "real \<Rightarrow> int \<Rightarrow> real \<Rightarrow> error + yagi_out" where
  \<comment> \<open>the \<^verbatim>\<open>Yagi-Uda beam\<close> branch of \<^verbatim>\<open>calculate_antenna\<close>, from the wavelength on\<close>
  "calculate_antenna_yagi lam elements vf =
     (case yagiLengths lam elements vf of (r, d, ds) \<Rightarrow>
        sbind (yagiSpacing lam elements) (\<lambda>(sp, boom).
        Inr \<lparr>reflector_len = r, driven_len = d, director_lens = ds,
             spacing_list = sp, boom_len = boom\<rparr>))"

section \<open>Coax loss interpolation\<close>

text \<open>
  \<^verbatim>\<open>COAX_DB\<close> is a dict from a coax type to its table, a map here. A table
  is a dict from frequency (MHz) to loss (dB per 100 ft): here the list of its
  items, whose keys are distinct, as the keys of a dict are. The function
  reads the global \<^verbatim>\<open>COAX_DB\<close>; \<open>coax_loss_from\<close> is its body with the
  database as a parameter.
\<close>

definition COAX_DB :: "string \<rightharpoonup> (real \<times> real) list" where
  "COAX_DB = map_of
     [(''RG-58'',   [(50, 1.9), (150, 3.8), (450, 7.0), (900, 10.3), (1500, 13.5)]),
      (''RG-213'',  [(50, 0.7), (150, 1.4), (450, 2.6), (900, 3.9), (1500, 5.1)]),
      (''LMR-240'', [(50, 0.6), (150, 1.3), (450, 2.7), (900, 4.1), (1500, 5.4)]),
      (''LMR-400'', [(50, 0.3), (150, 0.7), (450, 1.5), (900, 2.3), (1500, 3.0)]),
      (''LMR-600'', [(50, 0.2), (150, 0.5), (450, 1.1), (900, 1.7), (1500, 2.2)])]"

definition getitem :: "(real \<times> real) list \<Rightarrow> real \<Rightarrow> error + real" where
  \<comment> \<open>\<^verbatim>\<open>points[k]\<close>\<close>
  "getitem points k = (case map_of points k of None \<Rightarrow> Inl KeyError | Some v \<Rightarrow> Inr v)"

fun coax_scan :: "(real \<times> real) list \<Rightarrow> real list \<Rightarrow> real \<Rightarrow> (error + real) option" where
  \<comment> \<open>the \<^verbatim>\<open>for i in range(len(freqs) - 1)\<close> loop: \<open>Some\<close> is its \<^verbatim>\<open>return\<close>, \<open>None\<close> falling through\<close>
  "coax_scan points (f1 # f2 # rest) freq_mhz =
     (if f1 \<le> freq_mhz \<and> freq_mhz \<le> f2
      then Some (sbind (getitem points f1) (\<lambda>l1.
                 sbind (getitem points f2) (\<lambda>l2.
                 sbind (truediv (freq_mhz - f1) (f2 - f1)) (\<lambda>t.
                 Inr (l1 + t * (l2 - l1))))))
      else coax_scan points (f2 # rest) freq_mhz)"
| "coax_scan points _ freq_mhz = None"

definition coax_loss_from ::
  "(string \<rightharpoonup> (real \<times> real) list) \<Rightarrow> string \<Rightarrow> real \<Rightarrow> error + real" where
  "coax_loss_from db coax_type freq_mhz =
     (case db coax_type of
        None \<Rightarrow> Inr 0
      | Some points \<Rightarrow>
          if points = [] then Inr 0
          else (let freqs = sort (map fst points) in
                if freq_mhz \<le> hd freqs then getitem points (hd freqs)
                else if freq_mhz \<ge> last freqs then getitem points (last freqs)
                else (case coax_scan points freqs freq_mhz of
                        Some r \<Rightarrow> r
                      | None \<Rightarrow> getitem points (last freqs))))"

definition coax_loss_db_per_100ft :: "string \<Rightarrow> real \<Rightarrow> error + real" where
  "coax_loss_db_per_100ft = coax_loss_from COAX_DB"

section \<open>Friis cascade\<close>

record stage =
  g_db :: real
  nf_db :: real
  t_k :: real
  use_t :: bool

record friis_out =
  total_gain_db :: real
  total_F :: real
  total_NF_db :: real
  total_T_K :: real

definition stage_G :: "stage \<Rightarrow> error + real" where
  \<comment> \<open>\<^verbatim>\<open>10**(g/10.0)\<close>\<close>
  "stage_G s = pow10 (g_db s / 10)"

definition stage_F :: "stage \<Rightarrow> error + real" where
  "stage_F s = (if use_t s then Inr (1 + t_k s / 290) else pow10 (nf_db s / 10))"

definition friis_step ::
  "real list \<Rightarrow> real list \<Rightarrow> nat \<Rightarrow> real \<times> real \<Rightarrow> error + real \<times> real" where
  \<comment> \<open>one round of the accumulation loop on \<open>(F_total, gain_prod)\<close>\<close>
  "friis_step G F i acc =
     (case acc of (F_total, gain_prod) \<Rightarrow>
        (let gain_prod = fmul gain_prod (G ! (i - 1))
         in sbind (truediv (F ! i - 1) gain_prod) (\<lambda>q.
            Inr (F_total + q, gain_prod))))"

definition friis_accumulate :: "real list \<Rightarrow> real list \<Rightarrow> error + real \<times> real" where
  \<comment> \<open>\<^verbatim>\<open>for i in range(1, len(F))\<close> from \<open>(F[0], 1.0)\<close>\<close>
  "friis_accumulate G F = for_each (friis_step G F) [1..<length F] (F ! 0, 1)"

definition prod_py :: "real list \<Rightarrow> real" where
  \<comment> \<open>\<^verbatim>\<open>_prod\<close>\<close>
  "prod_py arr = fold (\<lambda>a p. fmul p a) arr 1"

definition calculate_friis :: "stage list \<Rightarrow> error + friis_out" where
  \<comment> \<open>the list \<open>G\<close> is built first, then the list \<open>F\<close>, as in the source\<close>
  "calculate_friis stages =
     (if stages = [] then Inl (ValueError ''Add at least one stage.'')
      else sbind (collect stage_G stages) (\<lambda>G.
           sbind (collect stage_F stages) (\<lambda>F.
           sbind (friis_accumulate G F) (\<lambda>acc.
           let F_total = fst acc
           in sbind (log10 F_total) (\<lambda>lf.
              let NF_total_db = 10 * lf;
                  T_total = (F_total - 1) * 290
              in sbind (log10 (prod_py G)) (\<lambda>lg.
                 Inr \<lparr>total_gain_db = 10 * lg, total_F = F_total,
                      total_NF_db = NF_total_db, total_T_K = T_total\<rparr>))))))"

section \<open>Fresnel zone\<close>

record fresnel_in =
  fr_freq_val :: real
  fr_freq_unit :: string
  fr_dist_val :: real
  fr_dist_unit :: string
  fr_point_pct :: real
  fr_obstacle_h :: real

record fresnel_out =
  r1_m :: real
  clearance_pct :: real

definition calculate_fresnel :: "fresnel_in \<Rightarrow> error + fresnel_out" where
  "calculate_fresnel v =
     (let f_mhz = (if fr_freq_unit v = ''GHz'' then fr_freq_val v * 1000 else fr_freq_val v);
          d_km = (if fr_dist_unit v = ''mi'' then fr_dist_val v * 1.609344 else fr_dist_val v);
          pct = fr_point_pct v / 100
      in if \<not> (0 < pct \<and> pct < 1)
         then Inl (ValueError ''Point % must be between 0 and 100 (exclusive).'')
         else (let d1 = d_km * pct;
                   d2 = d_km * (1 - pct)
               in sbind (wavelengthMeters (f_mhz * 1000000)) (\<lambda>lam.
                  let d1_m = d1 * 1000;
                      d2_m = d2 * 1000
                  in sbind (truediv (lam * d1_m * d2_m) (d1_m + d2_m)) (\<lambda>q.
                     sbind (sqrt_py q) (\<lambda>r1.
                     let obs = fr_obstacle_h v
                     in sbind (if r1 > 0
                               then sbind (truediv obs r1) (\<lambda>x.
                                    Inr (max 0 (min 100 ((1 - x) * 100))))
                               else Inr 0) (\<lambda>clearance.
                        Inr \<lparr>r1_m = r1, clearance_pct = clearance\<rparr>))))))"

section \<open>Smith chart, SWR and L-match\<close>

datatype swr_value = Finite real | Infinite

record reflection =
  refl_gamma :: complex
  refl_mag :: real
  refl_swr :: swr_value

definition reflection_swr :: "real \<Rightarrow> real \<Rightarrow> real \<Rightarrow> error + reflection" where
  \<comment> \<open>lines 855 to 858 of \<^verbatim>\<open>calculate_smith\<close>: \<^verbatim>\<open>ZL\<close>, \<^verbatim>\<open>gamma\<close>, \<^verbatim>\<open>mag\<close>, \<^verbatim>\<open>swr\<close>.
      Python's complex division raises ZeroDivisionError on a zero divisor;
      \<open>Infinite\<close> is \<^verbatim>\<open>float("inf")\<close>.\<close>
  "reflection_swr R X Z0 =
     (let ZL = Complex R X;
          num = ZL - complex_of_real Z0;
          den = ZL + complex_of_real Z0
      in if den = 0 then Inl ZeroDivisionError
         else (let gamma = num / den;
                   mag = cmod gamma;
                   swr = (if mag < 1 then Finite ((1 + mag) / (1 - mag)) else Infinite)
               in Inr \<lparr>refl_gamma = gamma, refl_mag = mag, refl_swr = swr\<rparr>))"

datatype cancel_note =
    CancelPlusJX    \<comment> \<open>\<^verbatim>\<open>Add series capacitor to cancel +jX.\<close>\<close>
  | CancelMinusJX   \<comment> \<open>\<^verbatim>\<open>Add series inductor to cancel -jX.\<close>\<close>
  | NoCancel        \<comment> \<open>\<^verbatim>\<open>No reactive cancel needed.\<close>\<close>

text \<open>
  \<^verbatim>\<open>suggest_l_match\<close> returns a text. The model keeps which text it is and the
  numbers formatted into it: \<open>InvalidR\<close> is the string \<^verbatim>\<open>Invalid R.\<close>,
  \<open>LowPassL c Ls Cp Q\<close> and \<open>HighPassL c Cs Lp Q\<close> the two network texts,
  \<open>AlreadyMatched c\<close> the text ending in \<^verbatim>\<open>R already matched to Z0.\<close>
\<close>

datatype match_text =
    InvalidR
  | LowPassL cancel_note real real real
  | HighPassL cancel_note real real real
  | AlreadyMatched cancel_note

definition suggest_l_match :: "real \<Rightarrow> real \<Rightarrow> real \<Rightarrow> real \<Rightarrow> error + match_text" where
  "suggest_l_match R X Z0 freq_mhz =
     (let f = freq_mhz * 1000000 in
      if R \<le> 0 then Inr InvalidR
      else (let cancel = (if \<bar>X\<bar> > 1 / 1000000
                          then (if X > 0 then CancelPlusJX else CancelMinusJX)
                          else NoCancel)
            in if R < Z0 then
                 sbind (truediv Z0 R) (\<lambda>zr.
                 sbind (sqrt_py (zr - 1)) (\<lambda>Q.
                 let Xs = Q * R in
                 sbind (truediv Z0 Q) (\<lambda>Xp.
                 sbind (truediv Xs (2 * pi * f)) (\<lambda>Ls.
                 sbind (truediv 1 (2 * pi * f * Xp)) (\<lambda>Cp.
                 Inr (LowPassL cancel Ls Cp Q))))))
               else if R > Z0 then
                 sbind (truediv R Z0) (\<lambda>rz.
                 sbind (sqrt_py (rz - 1)) (\<lambda>Q.
                 let Xs = Q * Z0 in
                 sbind (truediv R Q) (\<lambda>Xp.
                 sbind (truediv 1 (2 * pi * f * Xs)) (\<lambda>Cs.
                 sbind (truediv Xp (2 * pi * f)) (\<lambda>Lp.
                 Inr (HighPassL cancel Cs Lp Q))))))
               else Inr (AlreadyMatched cancel)))"

record smith_out =
  out_gamma :: complex
  out_gamma_mag :: real
  out_swr :: swr_value
  out_match :: match_text

definition calculate_smith :: "real \<Rightarrow> real \<Rightarrow> real \<Rightarrow> real \<Rightarrow> error + smith_out" where
  \<comment> \<open>the handler from its four inputs to what it reports; \<open>Inl\<close> is the exception that
      its \<^verbatim>\<open>except Exception\<close> clause shows in an error box\<close>
  "calculate_smith R X Z0 f_mhz =
     sbind (reflection_swr R X Z0) (\<lambda>r.
     sbind (suggest_l_match R X Z0 f_mhz) (\<lambda>match_text.
     Inr \<lparr>out_gamma = refl_gamma r, out_gamma_mag = refl_mag r, out_swr = refl_swr r,
          out_match = match_text\<rparr>))"

section \<open>The formulas of the specification\<close>

text \<open>
  The closed forms the specification names, written as it states them; the
  theorems compare them with what the code computes.
\<close>

definition gamma_formula :: "real \<Rightarrow> real \<Rightarrow> real \<Rightarrow> complex" where
  \<comment> \<open>\<open>(R + jX - Z0) / (R + jX + Z0)\<close>\<close>
  "gamma_formula R X Z0 = (Complex R X - complex_of_real Z0) / (Complex R X + complex_of_real Z0)"

definition swr_formula :: "real \<Rightarrow> swr_value" where
  \<comment> \<open>the SWR of a reflection of magnitude \<open>m\<close>\<close>
  "swr_formula m = (if m < 1 then Finite ((1 + m) / (1 - m)) else Infinite)"

definition fresnel_f_mhz :: "fresnel_in \<Rightarrow> real" where
  "fresnel_f_mhz v = (if fr_freq_unit v = ''GHz'' then fr_freq_val v * 1000 else fr_freq_val v)"

definition fresnel_d_km :: "fresnel_in \<Rightarrow> real" where
  "fresnel_d_km v = (if fr_dist_unit v = ''mi'' then fr_dist_val v * 1.609344 else fr_dist_val v)"

definition fresnel_r1 :: "fresnel_in \<Rightarrow> real" where
  "fresnel_r1 v =
     (let lam = 299792458 / (fresnel_f_mhz v * 1000000);
          d1_m = fresnel_d_km v * (fr_point_pct v / 100) * 1000;
          d2_m = fresnel_d_km v * (1 - fr_point_pct v / 100) * 1000
      in sqrt (lam * d1_m * d2_m / (d1_m + d2_m)))"

definition friis_formula :: "real list \<Rightarrow> real list \<Rightarrow> real" where
  \<comment> \<open>The specification's formula, with stages counted from 0:
      \<open>F_1 + \<Sum>_{i=2..n} (F_i - 1) / \<Prod>_{j=1..i-1} G_j\<close>.\<close>
  "friis_formula G F = F ! 0 + (\<Sum>i = 1..<length F. (F ! i - 1) / (\<Prod>j<i. G ! j))"

definition gain_linear :: "stage \<Rightarrow> real" where
  \<comment> \<open>a stage's gain converted from dB to linear, \<open>10^(G_dB/10)\<close>\<close>
  "gain_linear s = 10 powr (g_db s / 10)"

definition noise_factor :: "stage \<Rightarrow> real" where
  \<comment> \<open>\<open>F_i = 1 + T/290\<close> if the temperature flag is set, else \<open>10^(NF_dB/10)\<close>\<close>
  "noise_factor s = (if use_t s then 1 + t_k s / 290 else 10 powr (nf_db s / 10))"

definition friis_spec :: "stage list \<Rightarrow> real" where
  \<comment> \<open>the formula on the stages\<close>
  "friis_spec stages = friis_formula (map gain_linear stages) (map noise_factor stages)"

definition friis_in_range :: "stage list \<Rightarrow> bool" where
  \<comment> \<open>The absolute gains add up to at most 1000 dB; a noise figure lies between 0 and
      1000 dB and a noise temperature between 0 and \<open>10^9\<close> K. Then every value of the
      cascade lies well inside the range of a double.\<close>
  "friis_in_range stages \<longleftrightarrow>
     sum_list (map (\<lambda>s. \<bar>g_db s\<bar>) stages) \<le> 1000
     \<and> (\<forall>s \<in> set stages.
           if use_t s then 0 \<le> t_k s \<and> t_k s \<le> 10 ^ 9
           else 0 \<le> nf_db s \<and> nf_db s \<le> 1000)"

definition moderate :: "real \<Rightarrow> bool" where
  \<comment> \<open>zero, or of a magnitude between \<open>10^-9\<close> and \<open>10^9\<close>\<close>
  "moderate x \<longleftrightarrow> x = 0 \<or> (1 / 10 ^ 9 \<le> \<bar>x\<bar> \<and> \<bar>x\<bar> \<le> 10 ^ 9)"

definition interpolate :: "real \<Rightarrow> real \<Rightarrow> real \<Rightarrow> real \<Rightarrow> real \<Rightarrow> real" where
  \<comment> \<open>\<open>loss = l1 + (f - f1) / (f2 - f1) (l2 - l1)\<close>\<close>
  "interpolate f1 l1 f2 l2 f = l1 + (f - f1) / (f2 - f1) * (l2 - l1)"

definition interp_result :: "(real \<times> real) list \<Rightarrow> real \<Rightarrow> real \<Rightarrow> real \<Rightarrow> error + real" where
  \<comment> \<open>what the loop of \<open>coax_scan\<close> returns at the pair \<open>f1\<close>, \<open>f2\<close>\<close>
  "interp_result points f1 f2 f =
     sbind (getitem points f1) (\<lambda>l1.
     sbind (getitem points f2) (\<lambda>l2.
     sbind (truediv (f - f1) (f2 - f1)) (\<lambda>t.
     Inr (l1 + t * (l2 - l1)))))"

section \<open>Basic facts\<close>

lemma sbind_Inr [simp]: "sbind (Inr v) k = k v"
  by (simp add: sbind_def)

lemma sbind_Inl [simp]: "sbind (Inl e) k = Inl e"
  by (simp add: sbind_def)

lemma truediv_simps [simp]:
  "b \<noteq> 0 \<Longrightarrow> truediv a b = Inr (a / b)"
  "truediv a 0 = Inl ZeroDivisionError"
  by (simp_all add: truediv_def)

lemma sqrt_py_nonneg [simp]: "0 \<le> x \<Longrightarrow> sqrt_py x = Inr (sqrt x)"
  by (simp add: sqrt_py_def)

section \<open>Free-space path loss\<close>

text \<open>
  C4. For positive distance (km) and frequency (MHz) \<open>fspl\<close> returns
  \<open>20 log10 d + 20 log10 f + 32.44\<close>, so that \<open>fspl 1 1\<close> is 32.44; when the
  distance or the frequency is not positive it raises the ValueError whose
  message says that distance and frequency must be positive.
\<close>

theorem fspl_formula:
  "(0 < d \<and> 0 < f \<longrightarrow> fspl d f = Inr (20 * log 10 d + 20 * log 10 f + 32.44))
   \<and> (d \<le> 0 \<or> f \<le> 0 \<longrightarrow>
        fspl d f = Inl (ValueError ''Distance and frequency must be positive.''))
   \<and> fspl 1 1 = Inr 32.44"
  by (simp add: fspl_def log10_def)

theorem fspl_formula_witness:
  "(0 < (10::real) \<and> 0 < (1::real)) \<and> fspl 10 1 = Inr 52.44
   \<and> ((0::real) \<le> 0 \<or> (5::real) \<le> 0)
   \<and> fspl 0 5 = Inl (ValueError ''Distance and frequency must be positive.'')"
  using fspl_formula [of 10 1] fspl_formula [of 0 5] by simp

section \<open>Yagi-Uda geometry\<close>

text \<open>
  C8. With three elements the Yagi synthesizer gives exactly one director, of
  length \<open>0.48 lam vf\<close> (the floor of \<open>0.44\<close> is not reached), the two
  spacings \<open>0.20 lam\<close> and \<open>0.15 lam\<close> and the boom length \<open>0.35 lam\<close>, for
  every wavelength and velocity factor; with fewer than three elements the
  Yagi calculation raises the ValueError of \<open>yagiSpacing\<close>.
\<close>

theorem yagi_three_elements:
  "snd (snd (yagiLengths lam 3 vf)) = [0.48 * lam * vf]
   \<and> yagiSpacing lam 3 = Inr ([0.20 * lam, 0.15 * lam], 0.35 * lam)
   \<and> calculate_antenna_yagi lam 3 vf =
       Inr \<lparr>reflector_len = 0.53 * lam * vf, driven_len = 0.50 * lam * vf,
            director_lens = [0.48 * lam * vf],
            spacing_list = [0.20 * lam, 0.15 * lam], boom_len = 0.35 * lam\<rparr>
   \<and> (elements < 3 \<longrightarrow>
        calculate_antenna_yagi lam elements vf =
          Inl (ValueError ''Yagi requires at least 3 elements.''))"
  by (simp add: calculate_antenna_yagi_def yagiLengths_def yagiSpacing_def Let_def)

theorem yagi_three_elements_witness:
  "(2::int) < 3 \<and> calculate_antenna_yagi 2 2 0.95 = Inl (ValueError ''Yagi requires at least 3 elements.'')
   \<and> calculate_antenna_yagi 2 3 1 =
       Inr \<lparr>reflector_len = 1.06, driven_len = 1, director_lens = [0.96],
            spacing_list = [0.4, 0.3], boom_len = 0.7\<rparr>"
  using yagi_three_elements [of 2 "95/100" 2] yagi_three_elements [of 2 1 2] by simp

section \<open>Reflection coefficient and SWR\<close>

lemma reflection_den_zero_iff:
  "Complex R X + complex_of_real Z0 = 0 \<longleftrightarrow> R + Z0 = 0 \<and> X = 0"
  by (simp add: complex_eq_iff)

lemma reflection_swr_ok:
  "R + Z0 \<noteq> 0 \<or> X \<noteq> 0 \<Longrightarrow>
   reflection_swr R X Z0 =
     Inr \<lparr>refl_gamma = gamma_formula R X Z0,
          refl_mag = cmod (gamma_formula R X Z0),
          refl_swr = swr_formula (cmod (gamma_formula R X Z0))\<rparr>"
  by (simp add: reflection_swr_def Let_def gamma_formula_def swr_formula_def complex_eq_iff)

lemma gamma_real_axis:
  "R + Z0 \<noteq> 0 \<Longrightarrow> gamma_formula R 0 Z0 = complex_of_real ((R - Z0) / (R + Z0))"
  by (simp add: gamma_formula_def complex_eq_iff Complex_eq)

lemma reflection_swr_real_axis:
  "R + Z0 \<noteq> 0 \<Longrightarrow>
   reflection_swr R 0 Z0 =
     Inr \<lparr>refl_gamma = complex_of_real ((R - Z0) / (R + Z0)),
          refl_mag = \<bar>(R - Z0) / (R + Z0)\<bar>,
          refl_swr = swr_formula \<bar>(R - Z0) / (R + Z0)\<bar>\<rparr>"
  by (simp add: reflection_swr_ok gamma_real_axis del: of_real_divide)

lemma suggest_l_match_nonpositive:
  "R \<le> 0 \<Longrightarrow> suggest_l_match R X Z0 freq_mhz = Inr InvalidR"
  by (simp add: suggest_l_match_def)

lemma suggest_l_match_low_pass:
  assumes "0 < R" "R < Z0" "f_mhz \<noteq> 0"
  shows "\<exists>m. suggest_l_match R X Z0 f_mhz = Inr m"
proof -
  define Q where "Q = sqrt (Z0 / R - 1)"
  have q: "0 < Z0 / R - 1"
    using assms by (simp add: field_simps)
  then have Q: "0 < Q"
    by (simp add: Q_def)
  have z: "0 < Z0"
    using assms by linarith
  have d1: "truediv Z0 R = Inr (Z0 / R)"
    using assms by simp
  have d2: "sqrt_py (Z0 / R - 1) = Inr Q"
    using q by (simp add: Q_def)
  have d3: "truediv Z0 Q = Inr (Z0 / Q)"
    using Q by simp
  have w: "2 * pi * (f_mhz * 1000000) \<noteq> 0"
    using assms by simp
  have d4: "truediv (Q * R) (2 * pi * (f_mhz * 1000000)) = Inr (Q * R / (2 * pi * (f_mhz * 1000000)))"
    using w by (rule truediv_simps)
  have "2 * pi * (f_mhz * 1000000) * (Z0 / Q) \<noteq> 0"
    using w z Q by simp
  then have d5: "truediv 1 (2 * pi * (f_mhz * 1000000) * (Z0 / Q))
                  = Inr (1 / (2 * pi * (f_mhz * 1000000) * (Z0 / Q)))"
    by (rule truediv_simps)
  have "suggest_l_match R X Z0 f_mhz =
          Inr (LowPassL (if \<bar>X\<bar> > 1 / 1000000
                          then (if X > 0 then CancelPlusJX else CancelMinusJX)
                          else NoCancel)
                 (Q * R / (2 * pi * (f_mhz * 1000000)))
                 (1 / (2 * pi * (f_mhz * 1000000) * (Z0 / Q))) Q)"
    unfolding suggest_l_match_def Let_def using assms(1,2)
    by (simp only: d1 d2 d3 d4 d5 sbind_Inr not_le [symmetric] if_True if_False simp_thms)
  then show ?thesis by blast
qed


lemma suggest_l_match_high_pass:
  assumes "0 < Z0" "Z0 < R" "f_mhz \<noteq> 0"
  shows "\<exists>m. suggest_l_match R X Z0 f_mhz = Inr m"
proof -
  define Q where "Q = sqrt (R / Z0 - 1)"
  have q: "0 < R / Z0 - 1"
    using assms by (simp add: field_simps)
  then have Q: "0 < Q"
    by (simp add: Q_def)
  have r: "0 < R" "\<not> R \<le> 0" "\<not> R < Z0"
    using assms by simp_all
  have d1: "truediv R Z0 = Inr (R / Z0)"
    using assms by simp
  have d2: "sqrt_py (R / Z0 - 1) = Inr Q"
    using q by (simp add: Q_def)
  have d3: "truediv R Q = Inr (R / Q)"
    using Q by simp
  have w: "2 * pi * (f_mhz * 1000000) \<noteq> 0"
    using assms by simp
  have "2 * pi * (f_mhz * 1000000) * (Q * Z0) \<noteq> 0"
    using w assms(1) Q by simp
  then have d4: "truediv 1 (2 * pi * (f_mhz * 1000000) * (Q * Z0))
                  = Inr (1 / (2 * pi * (f_mhz * 1000000) * (Q * Z0)))"
    by (rule truediv_simps)
  have d5: "truediv (R / Q) (2 * pi * (f_mhz * 1000000)) = Inr (R / Q / (2 * pi * (f_mhz * 1000000)))"
    using w by (rule truediv_simps)
  have "suggest_l_match R X Z0 f_mhz =
          Inr (HighPassL (if \<bar>X\<bar> > 1 / 1000000
                          then (if X > 0 then CancelPlusJX else CancelMinusJX)
                          else NoCancel)
                 (1 / (2 * pi * (f_mhz * 1000000) * (Q * Z0)))
                 (R / Q / (2 * pi * (f_mhz * 1000000))) Q)"
    unfolding suggest_l_match_def Let_def using r assms(2)
    by (simp only: d1 d2 d3 d4 d5 sbind_Inr if_True if_False simp_thms)
  then show ?thesis by blast
qed

lemma suggest_l_match_ok:
  assumes "0 < Z0" "f_mhz \<noteq> 0"
  shows "\<exists>m. suggest_l_match R X Z0 f_mhz = Inr m"
proof -
  consider "R \<le> 0" | "0 < R \<and> R < Z0" | "Z0 < R" | "R = Z0"
    by linarith
  then show ?thesis
  proof cases
    case 1
    then show ?thesis by (simp add: suggest_l_match_nonpositive)
  next
    case 2
    then show ?thesis using assms(2) by (intro suggest_l_match_low_pass) simp_all
  next
    case 3
    then show ?thesis using assms by (intro suggest_l_match_high_pass)
  next
    case 4
    then show ?thesis using assms(1) by (simp add: suggest_l_match_def)
  qed
qed

lemma calculate_smith_ok:
  assumes "0 < Z0" "f_mhz \<noteq> 0" "R + Z0 \<noteq> 0 \<or> X \<noteq> 0"
  shows "\<exists>m. suggest_l_match R X Z0 f_mhz = Inr m
           \<and> calculate_smith R X Z0 f_mhz =
               Inr \<lparr>out_gamma = gamma_formula R X Z0,
                    out_gamma_mag = cmod (gamma_formula R X Z0),
                    out_swr = swr_formula (cmod (gamma_formula R X Z0)),
                    out_match = m\<rparr>"
proof -
  from suggest_l_match_ok [OF assms(1,2)] obtain m where m: "suggest_l_match R X Z0 f_mhz = Inr m"
    by blast
  show ?thesis
    using m by (simp add: calculate_smith_def reflection_swr_ok [OF assms(3)])
qed




text \<open>
  C9. The division by \<open>R + jX + Z0\<close> is not guarded: for \<open>R = - Z0\<close> and
  \<open>X = 0\<close> (as for \<open>R = - 50\<close>, \<open>Z0 = 50\<close>) the reflection step raises
  ZeroDivisionError, neither a value nor the infinite sentinel, and so does
  the handler at every frequency.
\<close>

theorem reflection_zero_divisor:
  "reflection_swr (- Z0) 0 Z0 = Inl ZeroDivisionError
   \<and> calculate_smith (- Z0) 0 Z0 f_mhz = Inl ZeroDivisionError
   \<and> reflection_swr (- 50) 0 50 = Inl ZeroDivisionError"
  by (simp add: reflection_swr_def calculate_smith_def complex_eq_iff)

section \<open>L-match on a load without positive resistance\<close>

text \<open>
  C1, as the specification states it, fails: for \<open>R = - 10\<close>, \<open>X = 0\<close>,
  \<open>Z0 = 50\<close> at 146.52 MHz the L-match synthesis raises nothing, it returns
  the text \<^verbatim>\<open>Invalid R.\<close>, and the impedance calculation completes with
  \<open>|\<Gamma>| = 3/2\<close>, an infinite SWR and that text.
\<close>

theorem l_match_invalid_r_no_error:
  "suggest_l_match (- 10) 0 50 146.52 = Inr InvalidR
   \<and> calculate_smith (- 10) 0 50 146.52 =
       Inr \<lparr>out_gamma = - 3 / 2, out_gamma_mag = 3 / 2, out_swr = Infinite,
            out_match = InvalidR\<rparr>"
proof -
  have r: "reflection_swr (- 10) 0 50 =
             Inr \<lparr>refl_gamma = - 3 / 2, refl_mag = 3 / 2, refl_swr = Infinite\<rparr>"
    by (simp add: reflection_swr_real_axis swr_formula_def)
  show ?thesis
    by (simp add: calculate_smith_def r suggest_l_match_nonpositive)
qed

text \<open>
  C1, amended. For every load with \<open>R \<le> 0\<close>, whatever the reactance, the line
  impedance and the frequency, \<open>suggest_l_match\<close> returns the text
  \<^verbatim>\<open>Invalid R.\<close> and raises nothing; the surrounding calculation completes
  with that text as its match suggestion whenever \<open>R + jX + Z0\<close> is not zero.
\<close>

theorem l_match_invalid_r:
  "R \<le> 0 \<longrightarrow>
     suggest_l_match R X Z0 freq_mhz = Inr InvalidR
     \<and> (Complex R X + complex_of_real Z0 \<noteq> 0 \<longrightarrow>
          (\<exists>r. calculate_smith R X Z0 freq_mhz = Inr r \<and> out_match r = InvalidR))"
  by (auto simp add: suggest_l_match_def calculate_smith_def reflection_swr_ok reflection_den_zero_iff)

theorem l_match_invalid_r_witness:
  "(0::real) \<le> 0 \<and> suggest_l_match 0 7 50 146.52 = Inr InvalidR
   \<and> Complex 0 7 + complex_of_real 50 \<noteq> 0
   \<and> (\<exists>r. calculate_smith 0 7 50 146.52 = Inr r \<and> out_match r = InvalidR)"
proof -
  have nz: "Complex 0 7 + complex_of_real 50 \<noteq> 0"
    by (simp add: complex_eq_iff)
  show ?thesis
    using l_match_invalid_r [of 0 7 50 "146.52"] nz by simp
qed

section \<open>Friis cascade\<close>

lemma float_underflow_pos: "0 < float_underflow"
  by (simp add: float_underflow_def)

lemma pow_100_in_range:
  "(10::real) ^ 100 < float_overflow" "float_underflow < 1 / (10::real) ^ 100"
  by (simp_all add: float_overflow_def float_underflow_def field_simps)

lemma powr_100_bounds:
  assumes "\<bar>y\<bar> \<le> 100"
  shows "1 / (10::real) ^ 100 \<le> 10 powr y" and "10 powr y \<le> (10::real) ^ 100"
proof -
  have hi: "(10::real) powr 100 = 10 ^ 100"
    by simp
  have lo: "(10::real) powr (- 100) = 1 / 10 ^ 100"
    by (simp add: powr_minus_divide)
  have "(10::real) powr (- 100) \<le> 10 powr y"
    using assms by (intro powr_mono) auto
  then show "1 / (10::real) ^ 100 \<le> 10 powr y"
    unfolding lo .
  have "(10::real) powr y \<le> 10 powr 100"
    using assms by (intro powr_mono) auto
  then show "10 powr y \<le> (10::real) ^ 100"
    unfolding hi .
qed

lemma pow10_moderate: "\<bar>y\<bar> \<le> 100 \<Longrightarrow> pow10 y = Inr (10 powr y)"
  using powr_100_bounds [of y] pow_100_in_range by (simp add: pow10_def)

lemma fmul_mult: "float_underflow < \<bar>a * b\<bar> \<Longrightarrow> fmul a b = a * b"
  by (simp add: fmul_def)

lemma collect_map:
  "(\<And>x. x \<in> set xs \<Longrightarrow> f x = Inr (g x)) \<Longrightarrow> collect f xs = Inr (map g xs)"
  by (induction xs) simp_all

lemma for_each_snoc:
  "for_each body (xs @ [i]) s = sbind (for_each body xs s) (body i)"
proof (induction xs arbitrary: s)
  case Nil
  show ?case by (cases "body i s") simp_all
next
  case (Cons x xs)
  show ?case by (cases "body x s") (simp_all add: Cons.IH)
qed


lemma friis_step_ok:
  assumes "float_underflow < P * G ! (i - 1)"
  shows "friis_step G F i (S, P) =
           Inr (S + (F ! i - 1) / (P * G ! (i - 1)), P * G ! (i - 1))"
proof -
  have pos: "0 < P * G ! (i - 1)"
    using assms float_underflow_pos by linarith
  then have "fmul P (G ! (i - 1)) = P * G ! (i - 1)"
    using assms by (intro fmul_mult) simp
  moreover have "truediv (F ! i - 1) (P * G ! (i - 1)) = Inr ((F ! i - 1) / (P * G ! (i - 1)))"
    using pos unfolding truediv_def by (simp only: less_irrefl if_False split: if_splits) auto
  ultimately show ?thesis
    by (simp only: friis_step_def Let_def prod.case sbind_Inr)
qed

lemma friis_loop_formula:
  assumes "\<And>m. m \<le> n \<Longrightarrow> float_underflow < (\<Prod>j<m. G ! j)"
  shows "for_each (friis_step G F) [1..<Suc n] (F ! 0, 1) =
           Inr (F ! 0 + (\<Sum>i = 1..<Suc n. (F ! i - 1) / (\<Prod>j<i. G ! j)), (\<Prod>j<n. G ! j))"
  using assms
proof (induction n)
  case 0
  show ?case by simp
next
  case (Suc n)
  have up: "[1..<Suc (Suc n)] = [1..<Suc n] @ [Suc n]"
    by simp
  have prev: "for_each (friis_step G F) [1..<Suc n] (F ! 0, 1) =
           Inr (F ! 0 + (\<Sum>i = 1..<Suc n. (F ! i - 1) / (\<Prod>j<i. G ! j)), (\<Prod>j<n. G ! j))"
    using Suc.prems by (intro Suc.IH) simp
  have safe: "float_underflow < (\<Prod>j<n. G ! j) * G ! n"
    using Suc.prems [of "Suc n"] by simp
  have step: "friis_step G F (Suc n)
                (F ! 0 + (\<Sum>i = 1..<Suc n. (F ! i - 1) / (\<Prod>j<i. G ! j)), (\<Prod>j<n. G ! j)) =
              Inr (F ! 0 + (\<Sum>i = 1..<Suc n. (F ! i - 1) / (\<Prod>j<i. G ! j))
                     + (F ! Suc n - 1) / ((\<Prod>j<n. G ! j) * G ! n),
                   (\<Prod>j<n. G ! j) * G ! n)"
    using safe friis_step_ok [of _ G "Suc n" F] by simp
  show ?case
    unfolding up for_each_snoc prev sbind_Inr step by simp
qed

lemma friis_accumulate_formula:
  assumes "F \<noteq> []"
    and "\<And>m. m < length F \<Longrightarrow> float_underflow < (\<Prod>j<m. G ! j)"
  shows "friis_accumulate G F = Inr (friis_formula G F, (\<Prod>j<length F - 1. G ! j))"
proof -
  from assms(1) obtain n where n: "length F = Suc n"
    by (cases F) auto
  have "for_each (friis_step G F) [1..<Suc n] (F ! 0, 1) =
           Inr (F ! 0 + (\<Sum>i = 1..<Suc n. (F ! i - 1) / (\<Prod>j<i. G ! j)), (\<Prod>j<n. G ! j))"
    using assms(2) n by (intro friis_loop_formula) simp
  then show ?thesis
    by (simp add: friis_accumulate_def friis_formula_def n)
qed

lemma prod_py_fold:
  assumes "\<And>m. m \<le> length xs \<Longrightarrow> float_underflow < \<bar>acc * prod_list (take m xs)\<bar>"
  shows "fold (\<lambda>a p. fmul p a) xs acc = acc * prod_list xs"
  using assms
proof (induction xs arbitrary: acc)
  case Nil
  show ?case by simp
next
  case (Cons a xs)
  have one: "fmul acc a = acc * a"
    using Cons.prems [of 1] by (intro fmul_mult) simp
  have "fold (\<lambda>a p. fmul p a) xs (acc * a) = acc * a * prod_list xs"
  proof (rule Cons.IH)
    fix m
    assume "m \<le> length xs"
    then show "float_underflow < \<bar>acc * a * prod_list (take m xs)\<bar>"
      using Cons.prems [of "Suc m"] by (simp add: mult.assoc)
  qed
  then show ?case
    by (simp add: one mult.assoc)
qed

lemma prod_take_nth:
  fixes G :: "real list"
  shows "m \<le> length G \<Longrightarrow> prod_list (take m G) = (\<Prod>j<m. G ! j)"
proof (induction m)
  case 0
  show ?case by simp
next
  case (Suc m)
  then have "take (Suc m) G = take m G @ [G ! m]"
    by (simp add: take_Suc_conv_app_nth)
  then show ?case
    using Suc by simp
qed

lemma prod_list_gain_linear:
  "prod_list (map gain_linear xs) = 10 powr (sum_list (map g_db xs) / 10)"
  by (induction xs) (simp_all add: gain_linear_def powr_add add_divide_distrib)

lemma sum_abs_take:
  "sum_list (map (\<lambda>s. \<bar>g_db s\<bar>) (take m xs)) \<le> sum_list (map (\<lambda>s. \<bar>g_db s\<bar>) xs)"
proof -
  have "sum_list (map (\<lambda>s. \<bar>g_db s\<bar>) xs) =
          sum_list (map (\<lambda>s. \<bar>g_db s\<bar>) (take m xs)) + sum_list (map (\<lambda>s. \<bar>g_db s\<bar>) (drop m xs))"
    by (metis append_take_drop_id map_append sum_list_append)
  moreover have "0 \<le> sum_list (map (\<lambda>s. \<bar>g_db s\<bar>) (drop m xs))"
    by (intro sum_list_nonneg) auto
  ultimately show ?thesis by linarith
qed

lemma abs_sum_le_sum_abs:
  "\<bar>sum_list (map g_db xs)\<bar> \<le> sum_list (map (\<lambda>s. \<bar>g_db s\<bar>) xs)"
  by (induction xs) auto

lemma abs_gain_le_sum:
  "s \<in> set xs \<Longrightarrow> \<bar>g_db s\<bar> \<le> sum_list (map (\<lambda>s. \<bar>g_db s\<bar>) xs)"
proof (induction xs)
  case Nil
  then show ?case by simp
next
  case (Cons a xs)
  have "0 \<le> sum_list (map (\<lambda>s. \<bar>g_db s\<bar>) xs)"
    by (intro sum_list_nonneg) auto
  with Cons show ?case by auto
qed

lemma gain_prefix_safe:
  assumes "sum_list (map (\<lambda>s. \<bar>g_db s\<bar>) stages) \<le> 1000"
  shows "float_underflow < prod_list (take m (map gain_linear stages))"
proof -
  have "\<bar>sum_list (map g_db (take m stages))\<bar> \<le> sum_list (map (\<lambda>s. \<bar>g_db s\<bar>) (take m stages))"
    by (rule abs_sum_le_sum_abs)
  also have "\<dots> \<le> sum_list (map (\<lambda>s. \<bar>g_db s\<bar>) stages)"
    by (rule sum_abs_take)
  finally have "\<bar>sum_list (map g_db (take m stages)) / 10\<bar> \<le> 100"
    using assms by simp
  then have "1 / (10::real) ^ 100 \<le> 10 powr (sum_list (map g_db (take m stages)) / 10)"
    by (rule powr_100_bounds)
  then have "1 / (10::real) ^ 100 \<le> prod_list (take m (map gain_linear stages))"
    by (simp add: take_map prod_list_gain_linear)
  with pow_100_in_range(2) show ?thesis
    by linarith
qed


lemma stage_G_in_range:
  assumes "friis_in_range stages" "s \<in> set stages"
  shows "stage_G s = Inr (gain_linear s)"
proof -
  have "\<bar>g_db s\<bar> \<le> sum_list (map (\<lambda>s. \<bar>g_db s\<bar>) stages)"
    using assms(2) by (rule abs_gain_le_sum)
  then have "\<bar>g_db s / 10\<bar> \<le> 100"
    using assms(1) by (simp add: friis_in_range_def)
  then show ?thesis
    by (simp add: stage_G_def gain_linear_def pow10_moderate)
qed

lemma stage_F_in_range:
  assumes "friis_in_range stages" "s \<in> set stages"
  shows "stage_F s = Inr (noise_factor s)"
proof (cases "use_t s")
  case True
  then show ?thesis
    by (simp add: stage_F_def noise_factor_def)
next
  case False
  then have "0 \<le> nf_db s \<and> nf_db s \<le> 1000"
    using assms by (auto simp add: friis_in_range_def)
  then have "\<bar>nf_db s / 10\<bar> \<le> 100"
    by simp
  then show ?thesis
    using False by (simp add: stage_F_def noise_factor_def pow10_moderate)
qed

lemma noise_factor_ge_one:
  assumes "friis_in_range stages" "s \<in> set stages"
  shows "1 \<le> noise_factor s"
proof (cases "use_t s")
  case True
  then have "0 \<le> t_k s"
    using assms by (auto simp add: friis_in_range_def)
  then show ?thesis
    using True by (simp add: noise_factor_def)
next
  case False
  then have "0 \<le> nf_db s"
    using assms by (auto simp add: friis_in_range_def)
  then show ?thesis
    using False by (simp add: noise_factor_def ge_one_powr_ge_zero)
qed

lemma gain_linear_pos: "0 < gain_linear s"
  by (simp add: gain_linear_def)

lemma gain_prod_pos: "i \<le> length stages \<Longrightarrow> 0 < (\<Prod>j<i. map gain_linear stages ! j)"
  by (intro prod_pos) (simp add: gain_linear_pos)

lemma friis_spec_ge_one:
  assumes "stages \<noteq> []" and "\<And>s. s \<in> set stages \<Longrightarrow> 1 \<le> noise_factor s"
  shows "1 \<le> friis_spec stages"
proof -
  have h: "1 \<le> map noise_factor stages ! 0"
    using assms by (cases stages) auto
  have "0 \<le> (map noise_factor stages ! i - 1) / (\<Prod>j<i. map gain_linear stages ! j)"
    if "i \<in> {1..<length (map noise_factor stages)}" for i
  proof -
    have i: "i < length stages" using that by simp
    then have "1 \<le> map noise_factor stages ! i"
      using assms(2) by simp
    moreover have "0 < (\<Prod>j<i. map gain_linear stages ! j)"
      using i by (intro gain_prod_pos) simp
    ultimately show ?thesis by simp
  qed
  then have "0 \<le> (\<Sum>i = 1..<length (map noise_factor stages).
                 (map noise_factor stages ! i - 1) / (\<Prod>j<i. map gain_linear stages ! j))"
    by (rule sum_nonneg)
  with h show ?thesis
    unfolding friis_spec_def friis_formula_def by linarith
qed

lemma calculate_friis_in_range:
  assumes ne: "stages \<noteq> []" and r: "friis_in_range stages"
  shows "calculate_friis stages =
           Inr \<lparr>total_gain_db = 10 * log 10 (prod_list (map gain_linear stages)),
                total_F = friis_spec stages,
                total_NF_db = 10 * log 10 (friis_spec stages),
                total_T_K = (friis_spec stages - 1) * 290\<rparr>"
proof -
  define G where "G = map gain_linear stages"
  define F where "F = map noise_factor stages"
  have sum: "sum_list (map (\<lambda>s. \<bar>g_db s\<bar>) stages) \<le> 1000"
    using r by (simp add: friis_in_range_def)
  have cG: "collect stage_G stages = Inr G"
    unfolding G_def using r by (intro collect_map stage_G_in_range)
  have cF: "collect stage_F stages = Inr F"
    unfolding F_def using r by (intro collect_map stage_F_in_range)
  have safe: "float_underflow < prod_list (take m G)" for m
    unfolding G_def using sum by (rule gain_prefix_safe)
  have Fne: "F \<noteq> []"
    using ne by (simp add: F_def)
  have "float_underflow < (\<Prod>j<m. G ! j)" if "m < length F" for m
  proof -
    have "m \<le> length G"
      using that by (simp add: F_def G_def)
    then have "prod_list (take m G) = (\<Prod>j<m. G ! j)"
      by (rule prod_take_nth)
    with safe [of m] show ?thesis by simp
  qed
  with Fne have acc: "friis_accumulate G F = Inr (friis_formula G F, (\<Prod>j<length F - 1. G ! j))"
    by (rule friis_accumulate_formula)
  have spec: "friis_formula G F = friis_spec stages"
    by (simp add: friis_spec_def G_def F_def)
  have ge: "1 \<le> friis_spec stages"
    using ne r by (intro friis_spec_ge_one noise_factor_ge_one)
  have l1: "log10 (friis_spec stages) = Inr (log 10 (friis_spec stages))"
    using ge by (simp add: log10_def)
  have "float_underflow < \<bar>1 * prod_list (take m G)\<bar>" for m
    using safe [of m] by simp
  then have "fold (\<lambda>a p. fmul p a) G 1 = 1 * prod_list G"
    by (intro prod_py_fold)
  then have pp: "prod_py G = prod_list G"
    by (simp add: prod_py_def)
  have "0 < prod_list G"
    using safe [of "length G"] float_underflow_pos by simp
  then have l2: "log10 (prod_list G) = Inr (log 10 (prod_list G))"
    by (simp add: log10_def)
  show ?thesis
    using ne by (simp add: calculate_friis_def cG cF acc spec l1 pp l2 Let_def G_def [symmetric])
qed

lemma gain_linear_db: "gain_linear \<lparr>g_db = 10 * x, nf_db = n, t_k = t, use_t = u\<rparr> = 10 powr x"
  by (simp add: gain_linear_def)

lemma friis_formula_one: "friis_formula [g1] [f1] = f1"
  by (simp add: friis_formula_def)

lemma friis_formula_two: "friis_formula [g1, g2] [f1, f2] = f1 + (f2 - 1) / g1"
  by (simp add: friis_formula_def)

lemma friis_spec_two:
  "friis_spec [a, b] = noise_factor a + (noise_factor b - 1) / gain_linear a"
  by (simp add: friis_spec_def friis_formula_two)

lemma friis_in_range_swap: "friis_in_range [a, b] \<Longrightarrow> friis_in_range [b, a]"
  unfolding friis_in_range_def by (auto simp add: add.commute)

lemma pow_400_overflow: "float_overflow \<le> (10::real) powr 400"
proof -
  have "(10::real) powr 400 = 10 ^ 400"
    by (simp only: powr_numeral zero_less_numeral)
  moreover have "float_overflow \<le> (10::real) ^ 400"
    by (simp add: float_overflow_def)
  ultimately show ?thesis by (simp only:)
qed

lemma pow_400_underflow: "(10::real) powr (- 400) \<le> float_underflow"
proof -
  have "(10::real) powr (- 400) = 1 / 10 ^ 400"
    by (simp only: powr_minus_divide powr_numeral zero_less_numeral)
  moreover have "1 / (10::real) ^ 400 \<le> float_underflow"
    by (simp add: float_underflow_def field_simps)
  ultimately show ?thesis by (simp only:)
qed

lemma friis_gain_overflow_raises:
  "calculate_friis [\<lparr>g_db = 4000, nf_db = 3, t_k = 0, use_t = False\<rparr>] = Inl OverflowError"
  using pow_400_overflow by (simp add: calculate_friis_def stage_G_def pow10_def)

lemma friis_gain_underflow_raises:
  "calculate_friis [\<lparr>g_db = - 4000, nf_db = 0, t_k = 290, use_t = True\<rparr>]
     = Inl (ValueError ''math domain error'')"
proof -
  have g: "stage_G \<lparr>g_db = - 4000, nf_db = 0, t_k = 290, use_t = True\<rparr> = Inr 0"
    using pow_400_underflow float_underflow_pos pow_100_in_range
    by (simp add: stage_G_def pow10_def float_overflow_def)
  show ?thesis
    by (simp add: calculate_friis_def g stage_F_def friis_accumulate_def log10_def
        prod_py_def fmul_def float_underflow_def)
qed

text \<open>
  C2, as the specification states it, fails: a single stage under the
  temperature flag with \<open>T = - 290\<close> has noise factor 0, and the calculation
  raises the ValueError of \<^verbatim>\<open>log10\<close> instead of returning a total.
\<close>

theorem friis_negative_temperature_fails:
  "calculate_friis [\<lparr>g_db = 10, nf_db = 2, t_k = - 290, use_t = True\<rparr>]
     = Inl (ValueError ''math domain error'')"
proof -
  have "\<bar>(10::real) / 10\<bar> \<le> 100"
    by simp
  then have g: "stage_G \<lparr>g_db = 10, nf_db = 2, t_k = - 290, use_t = True\<rparr> = Inr 10"
    by (simp add: stage_G_def pow10_moderate)
  show ?thesis
    by (simp add: calculate_friis_def g stage_F_def friis_accumulate_def log10_def)
qed

text \<open>
  C2, amended. An empty stage list raises a ValueError. For a non-empty list
  in which the absolute gains add up to at most 1000 dB, every noise figure
  lies between 0 and 1000 dB and every noise temperature between 0 and
  \<open>10^9\<close> K, the calculation returns the total noise factor
  \<open>F_1 + \<Sum>_{i=2..n} (F_i - 1) / \<Prod>_{j<i} G_j\<close>, which is at least 1, with
  \<open>F_i = 1 + T/290\<close> under the temperature flag and \<open>10^(NF_dB/10)\<close>
  otherwise and \<open>G_j = 10^(G_dB/10)\<close>, together with its figure in dB, its
  noise temperature and the total gain in dB.
\<close>

theorem friis_cascade_in_range:
  "calculate_friis [] = Inl (ValueError ''Add at least one stage.'')
   \<and> (stages \<noteq> [] \<and> friis_in_range stages \<longrightarrow>
        1 \<le> friis_spec stages
        \<and> calculate_friis stages =
            Inr \<lparr>total_gain_db = 10 * log 10 (prod_list (map gain_linear stages)),
                 total_F = friis_spec stages,
                 total_NF_db = 10 * log 10 (friis_spec stages),
                 total_T_K = (friis_spec stages - 1) * 290\<rparr>)"
proof -
  have e: "calculate_friis [] = Inl (ValueError ''Add at least one stage.'')"
    by (simp add: calculate_friis_def)
  have p: "1 \<le> friis_spec stages" if "stages \<noteq> []" "friis_in_range stages"
    using that by (intro friis_spec_ge_one noise_factor_ge_one)
  show ?thesis
    using e p calculate_friis_in_range [of stages] by blast
qed

theorem friis_cascade_in_range_witness:
  "[\<lparr>g_db = 0, nf_db = 0, t_k = 290, use_t = True\<rparr>,
    \<lparr>g_db = 10, nf_db = 0, t_k = 580, use_t = True\<rparr>] \<noteq> []
   \<and> friis_in_range [\<lparr>g_db = 0, nf_db = 0, t_k = 290, use_t = True\<rparr>,
                      \<lparr>g_db = 10, nf_db = 0, t_k = 580, use_t = True\<rparr>]
   \<and> friis_spec [\<lparr>g_db = 0, nf_db = 0, t_k = 290, use_t = True\<rparr>,
                  \<lparr>g_db = 10, nf_db = 0, t_k = 580, use_t = True\<rparr>] = 4
   \<and> calculate_friis [\<lparr>g_db = 0, nf_db = 0, t_k = 290, use_t = True\<rparr>,
                      \<lparr>g_db = 10, nf_db = 0, t_k = 580, use_t = True\<rparr>]
       = Inr \<lparr>total_gain_db = 10, total_F = 4, total_NF_db = 10 * log 10 4, total_T_K = 870\<rparr>"
proof -
  have r: "friis_in_range [\<lparr>g_db = 0, nf_db = 0, t_k = 290, use_t = True\<rparr>,
                      \<lparr>g_db = 10, nf_db = 0, t_k = 580, use_t = True\<rparr>]"
    by (simp add: friis_in_range_def)
  have v: "friis_spec [\<lparr>g_db = 0, nf_db = 0, t_k = 290, use_t = True\<rparr>,
                  \<lparr>g_db = 10, nf_db = 0, t_k = 580, use_t = True\<rparr>] = 4"
    by (simp add: friis_spec_two noise_factor_def gain_linear_def)
  show ?thesis
    using friis_cascade_in_range [of "[\<lparr>g_db = 0, nf_db = 0, t_k = 290, use_t = True\<rparr>,
                               \<lparr>g_db = 10, nf_db = 0, t_k = 580, use_t = True\<rparr>]"]
    by (simp add: r v gain_linear_def)
qed

text \<open>
  C7, as the specification states it, fails: swapping two stages of unequal
  gain need not change the total. A 10 dB stage of 100 K and a 20 dB stage of
  110 K give the total noise factor 401/290 in both orders.
\<close>

theorem friis_swap_same_total:
  "g_db \<lparr>g_db = 10, nf_db = 0, t_k = 100, use_t = True\<rparr>
     \<noteq> g_db \<lparr>g_db = 20, nf_db = 0, t_k = 110, use_t = True\<rparr>
   \<and> calculate_friis [\<lparr>g_db = 10, nf_db = 0, t_k = 100, use_t = True\<rparr>,
                      \<lparr>g_db = 20, nf_db = 0, t_k = 110, use_t = True\<rparr>]
       = Inr \<lparr>total_gain_db = 10 * log 10 1000, total_F = 401 / 290,
              total_NF_db = 10 * log 10 (401 / 290), total_T_K = 111\<rparr>
   \<and> calculate_friis [\<lparr>g_db = 20, nf_db = 0, t_k = 110, use_t = True\<rparr>,
                      \<lparr>g_db = 10, nf_db = 0, t_k = 100, use_t = True\<rparr>]
       = Inr \<lparr>total_gain_db = 10 * log 10 1000, total_F = 401 / 290,
              total_NF_db = 10 * log 10 (401 / 290), total_T_K = 111\<rparr>"
proof -
  let ?a = "\<lparr>g_db = 10, nf_db = 0, t_k = 100, use_t = True\<rparr>"
  let ?b = "\<lparr>g_db = 20, nf_db = 0, t_k = 110, use_t = True\<rparr>"
  have r: "friis_in_range [?a, ?b]"
    by (simp add: friis_in_range_def)
  have ga: "gain_linear ?a = 10" and gb: "gain_linear ?b = 100"
    by (simp_all add: gain_linear_def)
  have ab: "friis_spec [?a, ?b] = 401 / 290"
    by (simp add: friis_spec_two noise_factor_def ga)
  have ba: "friis_spec [?b, ?a] = 401 / 290"
    by (simp add: friis_spec_two noise_factor_def gb)
  show ?thesis
    using calculate_friis_in_range [of "[?a, ?b]"] calculate_friis_in_range [of "[?b, ?a]"]
      r friis_in_range_swap [OF r]
    by (simp add: ab ba ga gb)
qed

text \<open>
  C7, amended. The cascade depends on the order of the stages: there are two
  stages of unequal gain and equal noise factor whose two orders give
  different totals. For two stages \<open>a\<close>, \<open>b\<close> within the range of C2 the
  order \<open>a, b\<close> gives \<open>F_a + (F_b - 1) / G_a\<close> and the order \<open>b, a\<close> gives
  \<open>F_b + (F_a - 1) / G_b\<close>.
\<close>

theorem friis_order_two_stages:
  "(\<exists>a b oa ob. g_db a \<noteq> g_db b \<and> noise_factor a = noise_factor b
        \<and> calculate_friis [a, b] = Inr oa \<and> calculate_friis [b, a] = Inr ob
        \<and> total_F oa \<noteq> total_F ob)
   \<and> (friis_in_range [a, b] \<longrightarrow>
        (\<exists>oa ob. calculate_friis [a, b] = Inr oa
            \<and> total_F oa = noise_factor a + (noise_factor b - 1) / gain_linear a
            \<and> calculate_friis [b, a] = Inr ob
            \<and> total_F ob = noise_factor b + (noise_factor a - 1) / gain_linear b))"
proof -
  let ?c = "\<lparr>g_db = 0, nf_db = 0, t_k = 290, use_t = True\<rparr>"
  let ?d = "\<lparr>g_db = 10, nf_db = 0, t_k = 290, use_t = True\<rparr>"
  have r: "friis_in_range [?c, ?d]"
    by (simp add: friis_in_range_def)
  have gc: "gain_linear ?c = 1" and gd: "gain_linear ?d = 10"
    by (simp_all add: gain_linear_def)
  have cd: "friis_spec [?c, ?d] = 3"
    by (simp add: friis_spec_two noise_factor_def gc)
  have dc: "friis_spec [?d, ?c] = 21 / 10"
    by (simp add: friis_spec_two noise_factor_def gd)
  have "g_db ?c \<noteq> g_db ?d \<and> noise_factor ?c = noise_factor ?d
        \<and> (\<exists>oa ob. calculate_friis [?c, ?d] = Inr oa \<and> calculate_friis [?d, ?c] = Inr ob
              \<and> total_F oa \<noteq> total_F ob)"
    using calculate_friis_in_range [of "[?c, ?d]"] calculate_friis_in_range [of "[?d, ?c]"]
      r friis_in_range_swap [OF r]
    by (simp add: cd dc noise_factor_def)
  then have ex: "\<exists>a b oa ob. g_db a \<noteq> g_db b \<and> noise_factor a = noise_factor b
        \<and> calculate_friis [a, b] = Inr oa \<and> calculate_friis [b, a] = Inr ob
        \<and> total_F oa \<noteq> total_F ob"
    by blast
  have two: "\<exists>oa ob. calculate_friis [a, b] = Inr oa
            \<and> total_F oa = noise_factor a + (noise_factor b - 1) / gain_linear a
            \<and> calculate_friis [b, a] = Inr ob
            \<and> total_F ob = noise_factor b + (noise_factor a - 1) / gain_linear b"
    if h: "friis_in_range [a, b]"
    using calculate_friis_in_range [of "[a, b]"] calculate_friis_in_range [of "[b, a]"]
      h friis_in_range_swap [OF h]
    by (simp add: friis_spec_two)
  show ?thesis
    using ex two by blast
qed

theorem friis_order_two_stages_witness:
  "friis_in_range [\<lparr>g_db = 10, nf_db = 0, t_k = 290, use_t = True\<rparr>,
                   \<lparr>g_db = 20, nf_db = 0, t_k = 580, use_t = True\<rparr>]
   \<and> (\<exists>oa ob. calculate_friis [\<lparr>g_db = 10, nf_db = 0, t_k = 290, use_t = True\<rparr>,
                                \<lparr>g_db = 20, nf_db = 0, t_k = 580, use_t = True\<rparr>] = Inr oa
         \<and> total_F oa = 2 + (3 - 1) / 10
         \<and> calculate_friis [\<lparr>g_db = 20, nf_db = 0, t_k = 580, use_t = True\<rparr>,
                             \<lparr>g_db = 10, nf_db = 0, t_k = 290, use_t = True\<rparr>] = Inr ob
         \<and> total_F ob = 3 + (2 - 1) / 100)"
proof -
  have r: "friis_in_range [\<lparr>g_db = 10, nf_db = 0, t_k = 290, use_t = True\<rparr>,
                   \<lparr>g_db = 20, nf_db = 0, t_k = 580, use_t = True\<rparr>]"
    by (simp add: friis_in_range_def)
  show ?thesis
    using friis_order_two_stages [of "\<lparr>g_db = 10, nf_db = 0, t_k = 290, use_t = True\<rparr>"
        "\<lparr>g_db = 20, nf_db = 0, t_k = 580, use_t = True\<rparr>"] r
    by (simp add: noise_factor_def gain_linear_def)
qed

section \<open>Fresnel zone\<close>

lemma fresnel_quotient_pos:
  fixes L A B :: real
  assumes "0 < L" "0 < A" "0 < B"
  shows "0 < L * A * B / (A + B)"
  using assms by (simp add: add_pos_pos)

lemma fresnel_segments_pos:
  assumes "0 < fr_freq_val v" "0 < fr_dist_val v" "0 < fr_point_pct v" "fr_point_pct v < 100"
  shows "0 < 299792458 / (fresnel_f_mhz v * 1000000)"
    and "0 < fresnel_d_km v * (fr_point_pct v / 100) * 1000"
    and "0 < fresnel_d_km v * (1 - fr_point_pct v / 100) * 1000"
  using assms by (simp_all add: fresnel_f_mhz_def fresnel_d_km_def)

lemma fresnel_r1_pos:
  assumes "0 < fr_freq_val v" "0 < fr_dist_val v" "0 < fr_point_pct v" "fr_point_pct v < 100"
  shows "0 < fresnel_r1 v"
  unfolding fresnel_r1_def Let_def real_sqrt_gt_0_iff
  by (rule fresnel_quotient_pos) (rule fresnel_segments_pos [OF assms])+

lemma calculate_fresnel_ok:
  assumes "0 < fr_freq_val v" "0 < fr_dist_val v" "0 < fr_point_pct v" "fr_point_pct v < 100"
  shows "calculate_fresnel v =
           Inr \<lparr>r1_m = fresnel_r1 v,
                clearance_pct = max 0 (min 100 ((1 - fr_obstacle_h v / fresnel_r1 v) * 100))\<rparr>"
proof -
  define lam where "lam = 299792458 / (fresnel_f_mhz v * 1000000)"
  define d1_m where "d1_m = fresnel_d_km v * (fr_point_pct v / 100) * 1000"
  define d2_m where "d2_m = fresnel_d_km v * (1 - fr_point_pct v / 100) * 1000"
  have pos: "0 < lam" "0 < d1_m" "0 < d2_m"
    unfolding lam_def d1_m_def d2_m_def by (rule fresnel_segments_pos [OF assms])+
  have f: "0 < fresnel_f_mhz v"
    using assms by (simp add: fresnel_f_mhz_def)
  have pc: "0 < fr_point_pct v / 100 \<and> fr_point_pct v / 100 < 1"
    using assms(3,4) by simp
  have q: "0 < lam * d1_m * d2_m / (d1_m + d2_m)"
    using pos by (rule fresnel_quotient_pos)
  have r1: "fresnel_r1 v = sqrt (lam * d1_m * d2_m / (d1_m + d2_m))"
    by (simp add: fresnel_r1_def lam_def d1_m_def d2_m_def)
  have r: "0 < fresnel_r1 v"
    using assms by (rule fresnel_r1_pos)
  have w: "wavelengthMeters (fresnel_f_mhz v * 1000000) = Inr lam"
    using f by (simp add: wavelengthMeters_def lam_def)
  have t: "truediv (lam * d1_m * d2_m) (d1_m + d2_m) = Inr (lam * d1_m * d2_m / (d1_m + d2_m))"
    using pos by (simp add: truediv_def)
  have s: "sqrt_py (lam * d1_m * d2_m / (d1_m + d2_m)) = Inr (fresnel_r1 v)"
    using q by (simp add: sqrt_py_def r1)
  have c: "calculate_fresnel v =
      sbind (wavelengthMeters (fresnel_f_mhz v * 1000000)) (\<lambda>lam.
        sbind (truediv (lam * d1_m * d2_m) (d1_m + d2_m)) (\<lambda>q.
        sbind (sqrt_py q) (\<lambda>r1.
        sbind (if r1 > 0
               then sbind (truediv (fr_obstacle_h v) r1) (\<lambda>x.
                      Inr (max 0 (min 100 ((1 - x) * 100))))
               else Inr 0) (\<lambda>clearance.
        Inr \<lparr>r1_m = r1, clearance_pct = clearance\<rparr>))))"
    unfolding calculate_fresnel_def Let_def fresnel_f_mhz_def [symmetric]
      fresnel_d_km_def [symmetric] d1_m_def d2_m_def
    using pc by (simp only: simp_thms if_False)
  show ?thesis
    unfolding c w sbind_Inr t s using r by simp
qed

lemma fresnel_r1_example:
  "fresnel_r1 \<lparr>fr_freq_val = 299.792458, fr_freq_unit = ''MHz'', fr_dist_val = 0.4,
               fr_dist_unit = ''km'', fr_point_pct = 50, fr_obstacle_h = 5\<rparr> = 10"
proof -
  have "sqrt 100 = sqrt (10\<^sup>2)" by simp
  also have "\<dots> = 10" by (simp only: real_sqrt_abs)
  finally show ?thesis
    by (simp add: fresnel_r1_def fresnel_f_mhz_def fresnel_d_km_def)
qed



section \<open>Coax loss interpolation\<close>

lemma hd_sort_Min: "xs \<noteq> [] \<Longrightarrow> hd (sort xs) = Min (set xs)"
proof -
  assume ne: "xs \<noteq> []"
  then have n: "sort xs \<noteq> []"
    by (metis length_0_conv length_sort)
  have "\<forall>y \<in> set (sort xs). hd (sort xs) \<le> y"
    using n sorted_sort [of xs] by (cases "sort xs") auto
  then have "\<forall>y \<in> set xs. hd (sort xs) \<le> y"
    by simp
  moreover have "hd (sort xs) \<in> set xs"
    using n hd_in_set [of "sort xs"] by simp
  ultimately show ?thesis
    by (intro Min_eqI [symmetric]) auto
qed

lemma sorted_last_greatest:
  fixes xs :: "real list"
  shows "sorted xs \<Longrightarrow> y \<in> set xs \<Longrightarrow> y \<le> last xs"
  by (induction xs) auto

lemma last_sort_Max:
  fixes xs :: "real list"
  shows "xs \<noteq> [] \<Longrightarrow> last (sort xs) = Max (set xs)"
proof -
  assume ne: "xs \<noteq> []"
  then have n: "sort xs \<noteq> []"
    by (metis length_0_conv length_sort)
  have "\<forall>y \<in> set (sort xs). y \<le> last (sort xs)"
    using sorted_last_greatest [of "sort xs"] by simp
  then have "\<forall>y \<in> set xs. y \<le> last (sort xs)"
    by simp
  moreover have "last (sort xs) \<in> set xs"
    using n last_in_set [of "sort xs"] by simp
  ultimately show ?thesis
    by (intro Max_eqI [symmetric]) auto
qed

lemma getitem_key:
  "k \<in> fst ` set points \<Longrightarrow> \<exists>l. map_of points k = Some l \<and> getitem points k = Inr l"
  by (cases "map_of points k") (auto simp add: getitem_def map_of_eq_None_iff)

lemma coax_scan_bracket:
  "length fs \<ge> 2 \<Longrightarrow> hd fs \<le> f \<Longrightarrow> f \<le> last fs \<Longrightarrow>
   \<exists>i. Suc i < length fs \<and> fs ! i \<le> f \<and> f \<le> fs ! Suc i
       \<and> coax_scan points fs f = Some (interp_result points (fs ! i) (fs ! Suc i) f)"
proof (induction points fs f rule: coax_scan.induct)
  case (1 points f1 f2 rest freq_mhz)
  show ?case
  proof (cases "f1 \<le> freq_mhz \<and> freq_mhz \<le> f2")
    case True
    then have "Suc 0 < length (f1 # f2 # rest) \<and> (f1 # f2 # rest) ! 0 \<le> freq_mhz
        \<and> freq_mhz \<le> (f1 # f2 # rest) ! Suc 0
        \<and> coax_scan points (f1 # f2 # rest) freq_mhz
            = Some (interp_result points ((f1 # f2 # rest) ! 0) ((f1 # f2 # rest) ! Suc 0) freq_mhz)"
      by (simp add: interp_result_def)
    then show ?thesis by blast
  next
    case False
    with "1.prems" have lt: "f2 < freq_mhz" by simp
    have rest: "rest \<noteq> []"
      using lt "1.prems"(3) by (cases rest) auto
    then have "2 \<le> length (f2 # rest)" "hd (f2 # rest) \<le> freq_mhz" "freq_mhz \<le> last (f2 # rest)"
      using lt "1.prems"(3) by (cases rest; simp)+
    with "1.IH" [OF False] obtain i where i: "Suc i < length (f2 # rest)"
        "(f2 # rest) ! i \<le> freq_mhz" "freq_mhz \<le> (f2 # rest) ! Suc i"
        "coax_scan points (f2 # rest) freq_mhz
           = Some (interp_result points ((f2 # rest) ! i) ((f2 # rest) ! Suc i) freq_mhz)"
      by blast
    have "Suc (Suc i) < length (f1 # f2 # rest) \<and> (f1 # f2 # rest) ! Suc i \<le> freq_mhz
        \<and> freq_mhz \<le> (f1 # f2 # rest) ! Suc (Suc i)
        \<and> coax_scan points (f1 # f2 # rest) freq_mhz
            = Some (interp_result points ((f1 # f2 # rest) ! Suc i) ((f1 # f2 # rest) ! Suc (Suc i)) freq_mhz)"
      using i False by auto
    then show ?thesis by blast
  qed
qed simp_all


lemma interp_result_ok:
  assumes "map_of points f1 = Some l1" "map_of points f2 = Some l2" "f1 \<noteq> f2"
  shows "interp_result points f1 f2 f = Inr (interpolate f1 l1 f2 l2 f)"
  using assms by (simp add: interp_result_def getitem_def interpolate_def)

lemma interpolate_between:
  assumes "f1 \<le> f" "f \<le> f2" "f1 < f2"
  shows "min l1 l2 \<le> interpolate f1 l1 f2 l2 f \<and> interpolate f1 l1 f2 l2 f \<le> max l1 l2"
proof -
  define t where "t = (f - f1) / (f2 - f1)"
  have t: "0 \<le> t" "t \<le> 1"
    using assms by (simp_all add: t_def)
  have i: "interpolate f1 l1 f2 l2 f = l1 + t * (l2 - l1)"
    by (simp add: interpolate_def t_def)
  show ?thesis
  proof (cases "l1 \<le> l2")
    case True
    then have "0 \<le> t * (l2 - l1)" "t * (l2 - l1) \<le> l2 - l1"
      using t by (simp_all add: mult_left_le_one_le)
    with True show ?thesis unfolding i by simp
  next
    case False
    then have "0 \<le> t * (l1 - l2)" "t * (l1 - l2) \<le> l1 - l2"
      using t by (simp_all add: mult_left_le_one_le)
    then have "l2 \<le> l1 + t * (l2 - l1)" "l1 + t * (l2 - l1) \<le> l1"
      by (simp_all add: algebra_simps)
    with False show ?thesis unfolding i by simp
  qed
qed

lemma coax_loss_cases:
  assumes db: "db coax_type = Some points" and ne: "points \<noteq> []"
    and dist: "distinct (map fst points)"
  shows "(f \<le> Min (fst ` set points) \<longrightarrow>
           (\<exists>l. map_of points (Min (fst ` set points)) = Some l
                \<and> coax_loss_from db coax_type f = Inr l))"
    and "(Max (fst ` set points) \<le> f \<longrightarrow>
           (\<exists>l. map_of points (Max (fst ` set points)) = Some l
                \<and> coax_loss_from db coax_type f = Inr l))"
    and "(Min (fst ` set points) < f \<and> f < Max (fst ` set points) \<longrightarrow>
           (\<exists>i l1 l2. Suc i < length points
                \<and> sort (map fst points) ! i \<le> f \<and> f \<le> sort (map fst points) ! Suc i
                \<and> sort (map fst points) ! i < sort (map fst points) ! Suc i
                \<and> map_of points (sort (map fst points) ! i) = Some l1
                \<and> map_of points (sort (map fst points) ! Suc i) = Some l2
                \<and> coax_loss_from db coax_type f =
                    Inr (interpolate (sort (map fst points) ! i) l1
                                     (sort (map fst points) ! Suc i) l2 f)))"
proof -
  define freqs where "freqs = sort (map fst points)"
  have fne: "map fst points \<noteq> []"
    using ne by simp
  have hd: "hd freqs = Min (fst ` set points)"
    unfolding freqs_def using hd_sort_Min [OF fne] by simp
  have last: "last freqs = Max (fst ` set points)"
    unfolding freqs_def using last_sort_Max [OF fne] by simp
  have set: "set freqs = fst ` set points"
    by (simp add: freqs_def)
  have len: "length freqs = length points"
    by (simp add: freqs_def)
  have fr_ne: "freqs \<noteq> []"
    using ne len by auto
  have min_in: "Min (fst ` set points) \<in> fst ` set points"
    using ne by (intro Min_in) auto
  have max_in: "Max (fst ` set points) \<in> fst ` set points"
    using ne by (intro Max_in) auto
  have unfold: "coax_loss_from db coax_type f =
      (if f \<le> hd freqs then getitem points (hd freqs)
       else if f \<ge> last freqs then getitem points (last freqs)
       else (case coax_scan points freqs f of
               Some r \<Rightarrow> r
             | None \<Rightarrow> getitem points (last freqs)))"
    unfolding freqs_def using db ne by (simp add: coax_loss_from_def Let_def)
  show "(f \<le> Min (fst ` set points) \<longrightarrow>
           (\<exists>l. map_of points (Min (fst ` set points)) = Some l
                \<and> coax_loss_from db coax_type f = Inr l))"
    using getitem_key [OF min_in] by (simp add: unfold hd)
  have le: "Min (fst ` set points) \<le> Max (fst ` set points)"
    using min_in by (intro Max_ge) auto
  show "(Max (fst ` set points) \<le> f \<longrightarrow>
           (\<exists>l. map_of points (Max (fst ` set points)) = Some l
                \<and> coax_loss_from db coax_type f = Inr l))"
  proof
    assume a: "Max (fst ` set points) \<le> f"
    show "\<exists>l. map_of points (Max (fst ` set points)) = Some l
                \<and> coax_loss_from db coax_type f = Inr l"
    proof (cases "f \<le> Min (fst ` set points)")
      case True
      with a le have "Min (fst ` set points) = Max (fst ` set points)"
        by simp
      then show ?thesis
        using getitem_key [OF min_in] True by (simp add: unfold hd)
    next
      case False
      then show ?thesis
        using getitem_key [OF max_in] a by (simp add: unfold hd last)
    qed
  qed
  show "(Min (fst ` set points) < f \<and> f < Max (fst ` set points) \<longrightarrow>
           (\<exists>i l1 l2. Suc i < length points
                \<and> sort (map fst points) ! i \<le> f \<and> f \<le> sort (map fst points) ! Suc i
                \<and> sort (map fst points) ! i < sort (map fst points) ! Suc i
                \<and> map_of points (sort (map fst points) ! i) = Some l1
                \<and> map_of points (sort (map fst points) ! Suc i) = Some l2
                \<and> coax_loss_from db coax_type f =
                    Inr (interpolate (sort (map fst points) ! i) l1
                                     (sort (map fst points) ! Suc i) l2 f)))"
  proof
    assume a: "Min (fst ` set points) < f \<and> f < Max (fst ` set points)"
    then have neq: "hd freqs \<noteq> last freqs"
      using hd last by simp
    have two: "2 \<le> length freqs"
    proof (cases freqs)
      case Nil
      with fr_ne show ?thesis by simp
    next
      case (Cons x xs)
      with neq show ?thesis by (cases xs) auto
    qed
    from coax_scan_bracket [OF two, of f points] a hd last
    obtain i where i: "Suc i < length freqs" "freqs ! i \<le> f" "f \<le> freqs ! Suc i"
        "coax_scan points freqs f = Some (interp_result points (freqs ! i) (freqs ! Suc i) f)"
      by auto
    have d: "distinct freqs" and s: "sorted freqs"
      using dist by (simp_all add: freqs_def)
    have k1: "freqs ! i \<in> fst ` set points" and k2: "freqs ! Suc i \<in> fst ` set points"
      using i(1) set nth_mem [of i freqs] nth_mem [of "Suc i" freqs] by auto
    from getitem_key [OF k1] obtain l1 where l1: "map_of points (freqs ! i) = Some l1"
      by blast
    from getitem_key [OF k2] obtain l2 where l2: "map_of points (freqs ! Suc i) = Some l2"
      by blast
    have ne12: "freqs ! i \<noteq> freqs ! Suc i"
      using d i(1) by (simp add: nth_eq_iff_index_eq)
    moreover have "freqs ! i \<le> freqs ! Suc i"
      using s i(1) by (intro sorted_nth_mono) auto
    ultimately have lt: "freqs ! i < freqs ! Suc i"
      by simp
    have res: "coax_loss_from db coax_type f = Inr (interpolate (freqs ! i) l1 (freqs ! Suc i) l2 f)"
      using a i(4) interp_result_ok [OF l1 l2 ne12] by (simp add: unfold hd last)
    have "Suc i < length points
                \<and> freqs ! i \<le> f \<and> f \<le> freqs ! Suc i
                \<and> freqs ! i < freqs ! Suc i
                \<and> map_of points (freqs ! i) = Some l1
                \<and> map_of points (freqs ! Suc i) = Some l2
                \<and> coax_loss_from db coax_type f =
                    Inr (interpolate (freqs ! i) l1 (freqs ! Suc i) l2 f)"
      using i l1 l2 lt res len by simp
    then show "\<exists>i l1 l2. Suc i < length points
                \<and> sort (map fst points) ! i \<le> f \<and> f \<le> sort (map fst points) ! Suc i
                \<and> sort (map fst points) ! i < sort (map fst points) ! Suc i
                \<and> map_of points (sort (map fst points) ! i) = Some l1
                \<and> map_of points (sort (map fst points) ! Suc i) = Some l2
                \<and> coax_loss_from db coax_type f =
                    Inr (interpolate (sort (map fst points) ! i) l1
                                     (sort (map fst points) ! Suc i) l2 f)"
      unfolding freqs_def by blast
  qed
qed


lemma coax_loss_unknown: "db coax_type = None \<Longrightarrow> coax_loss_from db coax_type f = Inr 0"
  by (simp add: coax_loss_from_def)

lemma coax_loss_single: "db coax_type = Some [(k, l)] \<Longrightarrow> coax_loss_from db coax_type f = Inr l"
  by (simp add: coax_loss_from_def getitem_def Let_def)

lemma COAX_DB_tables:
  "COAX_DB coax_type = Some points \<Longrightarrow> points \<noteq> [] \<and> distinct (map fst points)"
  by (auto simp add: COAX_DB_def split: if_splits)

lemma loss_in_range:
  "map_of points k = Some l \<Longrightarrow>
   Min (snd ` set points) \<le> l \<and> l \<le> Max (snd ` set points)"
proof -
  assume "map_of points k = Some l"
  then have "(k, l) \<in> set points"
    by (rule map_of_SomeD)
  then have "l \<in> snd ` set points"
    by force
  then show ?thesis
    by simp
qed

lemma coax_loss_bounded:
  assumes db: "db coax_type = Some points" and ne: "points \<noteq> []"
    and dist: "distinct (map fst points)"
  shows "\<exists>l. coax_loss_from db coax_type f = Inr l
            \<and> Min (snd ` set points) \<le> l \<and> l \<le> Max (snd ` set points)"
proof -
  note c = coax_loss_cases [of db coax_type points f, OF db ne dist]
  have "f \<le> Min (fst ` set points) \<or> Max (fst ` set points) \<le> f
      \<or> (Min (fst ` set points) < f \<and> f < Max (fst ` set points))"
    using not_le [of f "Min (fst ` set points)"] not_le [of "Max (fst ` set points)" f] by blast
  then consider "f \<le> Min (fst ` set points)" | "Max (fst ` set points) \<le> f"
    | "Min (fst ` set points) < f \<and> f < Max (fst ` set points)"
    by blast
  then show ?thesis
  proof cases
    case 1
    with c(1) obtain l where l: "map_of points (Min (fst ` set points)) = Some l"
        "coax_loss_from db coax_type f = Inr l"
      by blast
    show ?thesis
      using loss_in_range [OF l(1)] l(2) by simp
  next
    case 2
    with c(2) obtain l where l: "map_of points (Max (fst ` set points)) = Some l"
        "coax_loss_from db coax_type f = Inr l"
      by blast
    show ?thesis
      using loss_in_range [OF l(1)] l(2) by simp
  next
    case 3
    with c(3) obtain i l1 l2 where i:
        "sort (map fst points) ! i \<le> f" "f \<le> sort (map fst points) ! Suc i"
        "sort (map fst points) ! i < sort (map fst points) ! Suc i"
        "map_of points (sort (map fst points) ! i) = Some l1"
        "map_of points (sort (map fst points) ! Suc i) = Some l2"
        "coax_loss_from db coax_type f =
           Inr (interpolate (sort (map fst points) ! i) l1 (sort (map fst points) ! Suc i) l2 f)"
      by blast
    define v where "v = interpolate (sort (map fst points) ! i) l1 (sort (map fst points) ! Suc i) l2 f"
    have b: "min l1 l2 \<le> v" "v \<le> max l1 l2"
      unfolding v_def using interpolate_between [OF i(1,2,3), of l1 l2] by simp_all
    have r1: "Min (snd ` set points) \<le> l1" "l1 \<le> Max (snd ` set points)"
      using loss_in_range [OF i(4)] by simp_all
    have r2: "Min (snd ` set points) \<le> l2" "l2 \<le> Max (snd ` set points)"
      using loss_in_range [OF i(5)] by simp_all
    have lo: "Min (snd ` set points) \<le> min l1 l2"
      using r1(1) r2(1) by simp
    have hi: "max l1 l2 \<le> Max (snd ` set points)"
      using r1(2) r2(2) by simp
    have "Min (snd ` set points) \<le> v"
      using lo b(1) by (rule order_trans)
    moreover have "v \<le> Max (snd ` set points)"
      using b(2) hi by (rule order_trans)
    ultimately have "Min (snd ` set points) \<le> v \<and> v \<le> Max (snd ` set points)"
      by simp
    then show ?thesis
      using i(6) by (simp add: v_def)
  qed
qed

lemma rg58: "COAX_DB ''RG-58'' = Some [(50, 1.9), (150, 3.8), (450, 7.0), (900, 10.3), (1500, 13.5)]"
  by (simp add: COAX_DB_def)

lemma rg58_300: "coax_loss_from COAX_DB ''RG-58'' 300 = Inr 5.4"
  by (simp add: coax_loss_from_def rg58 getitem_def)

lemma rg58_min: "Min (fst ` set [(50, 1.9), (150, 3.8), (450, 7.0), (900, 10.3), (1500, 13.5::real)]) = (50::real)"
  by simp

lemma rg58_max: "Max (fst ` set [(50, 1.9), (150, 3.8), (450, 7.0), (900, 10.3), (1500, 13.5::real)]) = (1500::real)"
  by simp


lemma rg58_10: "coax_loss_from COAX_DB ''RG-58'' 10 = Inr 1.9"
  by (simp add: coax_loss_from_def rg58 getitem_def)

lemma rg58_2000: "coax_loss_from COAX_DB ''RG-58'' 2000 = Inr 13.5"
  by (simp add: coax_loss_from_def rg58 getitem_def)

lemma lmr400: "COAX_DB ''LMR-400'' = Some [(50, 0.3), (150, 0.7), (450, 1.5), (900, 2.3), (1500, 3.0)]"
  by (simp add: COAX_DB_def)

lemma lmr400_300: "coax_loss_from COAX_DB ''LMR-400'' 300 = Inr 1.1"
  by (simp add: coax_loss_from_def lmr400 getitem_def)

text \<open>
  C3. A coax type that is not in the database gives 0. For a type whose table
  is a dict with at least one entry: at or below the least frequency key the
  result is that key's loss, at or above the greatest key it is that key's
  loss, and strictly between them it is
  \<open>l1 + (f - f1) / (f2 - f1) (l2 - l1)\<close> for two neighbours \<open>f1 < f2\<close> of the
  ascending key list with \<open>f1 \<le> f \<le> f2\<close>. A table of one entry gives that
  entry's loss at every frequency. No lookup and no division fails. Every
  table of \<^verbatim>\<open>COAX_DB\<close> is such a dict.
\<close>

theorem coax_interpolation:
  "(db coax_type = None \<longrightarrow> coax_loss_from db coax_type f = Inr 0)
   \<and> (db coax_type = Some points \<and> points \<noteq> [] \<and> distinct (map fst points) \<longrightarrow>
        (f \<le> Min (fst ` set points) \<longrightarrow>
           (\<exists>l. map_of points (Min (fst ` set points)) = Some l
                \<and> coax_loss_from db coax_type f = Inr l))
      \<and> (Max (fst ` set points) \<le> f \<longrightarrow>
           (\<exists>l. map_of points (Max (fst ` set points)) = Some l
                \<and> coax_loss_from db coax_type f = Inr l))
      \<and> (Min (fst ` set points) < f \<and> f < Max (fst ` set points) \<longrightarrow>
           (\<exists>i l1 l2. Suc i < length points
                \<and> sort (map fst points) ! i \<le> f \<and> f \<le> sort (map fst points) ! Suc i
                \<and> sort (map fst points) ! i < sort (map fst points) ! Suc i
                \<and> map_of points (sort (map fst points) ! i) = Some l1
                \<and> map_of points (sort (map fst points) ! Suc i) = Some l2
                \<and> coax_loss_from db coax_type f =
                    Inr (interpolate (sort (map fst points) ! i) l1
                                     (sort (map fst points) ! Suc i) l2 f))))
   \<and> (db coax_type = Some [(k, l)] \<longrightarrow> coax_loss_from db coax_type f = Inr l)
   \<and> (COAX_DB coax_type = Some points \<longrightarrow> points \<noteq> [] \<and> distinct (map fst points))
   \<and> coax_loss_db_per_100ft coax_type f = coax_loss_from COAX_DB coax_type f"
  using coax_loss_unknown [of db coax_type f] coax_loss_cases [of db coax_type points f]
    coax_loss_single [of db coax_type k l f] COAX_DB_tables [of coax_type points]
  by (simp add: coax_loss_db_per_100ft_def)

theorem coax_interpolation_witness:
  "COAX_DB ''RG-59'' = None \<and> coax_loss_from COAX_DB ''RG-59'' 450 = Inr 0
   \<and> COAX_DB ''RG-58'' = Some [(50, 1.9), (150, 3.8), (450, 7.0), (900, 10.3), (1500, 13.5)]
   \<and> [(50::real, 1.9::real), (150, 3.8), (450, 7.0), (900, 10.3), (1500, 13.5)] \<noteq> []
   \<and> distinct (map fst [(50::real, 1.9::real), (150, 3.8), (450, 7.0), (900, 10.3), (1500, 13.5)])
   \<and> (10::real) \<le> Min (fst ` set [(50::real, 1.9::real), (150, 3.8), (450, 7.0), (900, 10.3), (1500, 13.5)])
   \<and> coax_loss_db_per_100ft ''RG-58'' 10 = Inr 1.9
   \<and> Max (fst ` set [(50::real, 1.9::real), (150, 3.8), (450, 7.0), (900, 10.3), (1500, 13.5)]) \<le> (2000::real)
   \<and> coax_loss_db_per_100ft ''RG-58'' 2000 = Inr 13.5
   \<and> Min (fst ` set [(50::real, 1.9::real), (150, 3.8), (450, 7.0), (900, 10.3), (1500, 13.5)]) < (300::real)
   \<and> (300::real) < Max (fst ` set [(50::real, 1.9::real), (150, 3.8), (450, 7.0), (900, 10.3), (1500, 13.5)])
   \<and> coax_loss_db_per_100ft ''RG-58'' 300 = Inr (interpolate 150 3.8 450 7.0 300)
   \<and> coax_loss_db_per_100ft ''RG-58'' 300 = Inr 5.4
   \<and> (Map.empty(''one'' \<mapsto> [(100, 2)])) ''one'' = Some [(100::real, 2::real)]
   \<and> coax_loss_from (Map.empty(''one'' \<mapsto> [(100, 2)])) ''one'' 7 = Inr 2"
proof -
  have none: "COAX_DB ''RG-59'' = None"
    by (simp add: COAX_DB_def)
  note a = coax_interpolation [of COAX_DB "''RG-59''" 450 "[]" 0 0]
  note b = coax_interpolation [of COAX_DB "''RG-58''" 10
      "[(50, 1.9), (150, 3.8), (450, 7.0), (900, 10.3), (1500, 13.5)]" 0 0]
  note c = coax_interpolation [of "Map.empty(''one'' \<mapsto> [(100, 2)])" "''one''" 7 "[(100, 2)]" 100 2]
  show ?thesis
    using a b c
    by (simp add: none rg58 rg58_min rg58_max rg58_10 rg58_2000 rg58_300 interpolate_def coax_loss_db_per_100ft_def)
qed

text \<open>
  C10. For a coax type that is in the database and every frequency, the
  interpolated loss lies between the least and the greatest loss of that
  type's table: for every database of dicts with at least one entry each, and
  so for \<^verbatim>\<open>COAX_DB\<close>.
\<close>

theorem coax_loss_within_table:
  "(db coax_type = Some points \<and> points \<noteq> [] \<and> distinct (map fst points) \<longrightarrow>
      (\<exists>l. coax_loss_from db coax_type f = Inr l
           \<and> Min (snd ` set points) \<le> l \<and> l \<le> Max (snd ` set points)))
   \<and> (COAX_DB coax_type = Some points \<longrightarrow>
      (\<exists>l. coax_loss_db_per_100ft coax_type f = Inr l
           \<and> Min (snd ` set points) \<le> l \<and> l \<le> Max (snd ` set points)))"
proof -
  have g: "\<exists>l. coax_loss_from db coax_type f = Inr l
           \<and> Min (snd ` set points) \<le> l \<and> l \<le> Max (snd ` set points)"
    if "db coax_type = Some points" "points \<noteq> []" "distinct (map fst points)" for db
    using that by (rule coax_loss_bounded)
  have t: "\<exists>l. coax_loss_db_per_100ft coax_type f = Inr l
           \<and> Min (snd ` set points) \<le> l \<and> l \<le> Max (snd ` set points)"
    if h: "COAX_DB coax_type = Some points"
    unfolding coax_loss_db_per_100ft_def
    using h COAX_DB_tables [OF h] by (intro g) simp_all
  show ?thesis
    using g [of db] t by blast
qed

theorem coax_loss_within_table_witness:
  "COAX_DB ''LMR-400'' = Some [(50, 0.3), (150, 0.7), (450, 1.5), (900, 2.3), (1500, 3.0)]
   \<and> [(50::real, 0.3::real), (150, 0.7), (450, 1.5), (900, 2.3), (1500, 3.0)] \<noteq> []
   \<and> distinct (map fst [(50::real, 0.3::real), (150, 0.7), (450, 1.5), (900, 2.3), (1500, 3.0)])
   \<and> coax_loss_db_per_100ft ''LMR-400'' 300 = Inr 1.1
   \<and> Min (snd ` set [(50::real, 0.3::real), (150, 0.7), (450, 1.5), (900, 2.3), (1500, 3.0)]) = (0.3::real)
   \<and> Max (snd ` set [(50::real, 0.3::real), (150, 0.7), (450, 1.5), (900, 2.3), (1500, 3.0)]) = (3.0::real)
   \<and> (0.3::real) \<le> 1.1 \<and> (1.1::real) \<le> 3.0"
  using coax_loss_within_table [of COAX_DB "''LMR-400''"
      "[(50, 0.3), (150, 0.7), (450, 1.5), (900, 2.3), (1500, 3.0)]" 300]
  by (simp add: lmr400 lmr400_300 coax_loss_db_per_100ft_def)

end
